theory Spec2Isabelle
  imports Complex_Main "HOL-Library.AList"
begin

section \<open>Python values\<close>

text \<open>
  The search engine of \<^verbatim>\<open>cruncher.py\<close> dispatches on the run-time type of the values
  it is given, so the values are modelled with their type tag. A Python \<^verbatim>\<open>float\<close> is
  modelled by an exact real number: rounding error, overflow, infinities and NaN are
  outside this model. A Python \<^verbatim>\<open>int\<close> is an unbounded integer. A \<^verbatim>\<open>bool\<close> is a type of
  its own (\<^verbatim>\<open>type(True) == int\<close> is false) that behaves as 0 or 1 in arithmetic.
\<close>

datatype num = PyInt int | PyFloat real

datatype pyval =
    Num num
  | Bool bool
  | PyList "pyval list"
  | PyTuple "pyval list"
  | PyStr string
  | PyNone

datatype pytype = TyInt | TyFloat | TyBool | TyList | TyTuple | TyStr | TyNone

fun type_of :: "pyval \<Rightarrow> pytype" where
  "type_of (Num (PyInt _)) = TyInt"
| "type_of (Num (PyFloat _)) = TyFloat"
| "type_of (Bool _) = TyBool"
| "type_of (PyList _) = TyList"
| "type_of (PyTuple _) = TyTuple"
| "type_of (PyStr _) = TyStr"
| "type_of PyNone = TyNone"

text \<open>The exceptions the engine can raise, as values.\<close>

datatype error =
    TooFewPoints int
  | NoIterations
  | VariablesMustExist
  | FailedValidation string
  | UnidentifiedType
  | KeyError string
  | TypeError
  | IndexError
  | ValueError
  | ZeroDivisionError
  | UnboundLocalError

text \<open>
  A \<^verbatim>\<open>dict\<close> keeps its keys in insertion order, and the engine relies on that order
  when it forms the cartesian product, so a dict is an association list:
  \<^verbatim>\<open>d[k] = v\<close> is \<^const>\<open>AList.update\<close> (an existing key keeps its place, a new
  key goes last) and \<^verbatim>\<open>d[k]\<close> is \<^const>\<open>map_of\<close>, raising \<^verbatim>\<open>KeyError\<close> on a
  missing key.
\<close>

type_synonym 'v dict = "(string \<times> 'v) list"

definition getitem :: "'v dict \<Rightarrow> string \<Rightarrow> error + 'v" where
  "getitem d k = (case map_of d k of None \<Rightarrow> Inl (KeyError k) | Some v \<Rightarrow> Inr v)"

definition keys :: "'v dict \<Rightarrow> string list" where
  "keys d = map fst d"

text \<open>\<^verbatim>\<open>v[i]\<close> on a list or a tuple; a string yields its character, a scalar raises.\<close>

fun subscript :: "pyval \<Rightarrow> nat \<Rightarrow> error + pyval" where
  "subscript (PyList xs) i = (if i < length xs then Inr (xs ! i) else Inl IndexError)"
| "subscript (PyTuple xs) i = (if i < length xs then Inr (xs ! i) else Inl IndexError)"
| "subscript (PyStr s) i = (if i < length s then Inr (PyStr [s ! i]) else Inl IndexError)"
| "subscript _ i = Inl TypeError"

subsection \<open>Arithmetic\<close>

fun to_real :: "num \<Rightarrow> real" where
  "to_real (PyInt i) = of_int i"
| "to_real (PyFloat x) = x"

text \<open>The operand of an arithmetic operator or of an ordering comparison.\<close>

fun as_num :: "pyval \<Rightarrow> error + num" where
  "as_num (Num n) = Inr n"
| "as_num (Bool b) = Inr (PyInt (if b then 1 else 0))"
| "as_num _ = Inl TypeError"

fun num_add :: "num \<Rightarrow> num \<Rightarrow> num" where
  "num_add (PyInt a) (PyInt b) = PyInt (a + b)"
| "num_add a b = PyFloat (to_real a + to_real b)"

fun num_sub :: "num \<Rightarrow> num \<Rightarrow> num" where
  "num_sub (PyInt a) (PyInt b) = PyInt (a - b)"
| "num_sub a b = PyFloat (to_real a - to_real b)"

text \<open>True division \<^verbatim>\<open>a / b\<close> always yields a float.\<close>

definition num_truediv :: "num \<Rightarrow> num \<Rightarrow> error + num" where
  "num_truediv a b =
     (if to_real b = 0 then Inl ZeroDivisionError else Inr (PyFloat (to_real a / to_real b)))"

definition num_lt :: "num \<Rightarrow> num \<Rightarrow> bool" where
  "num_lt a b = (to_real a < to_real b)"

text \<open>\<^verbatim>\<open>c == v\<close> for an int \<open>c\<close>: numeric equality, false against a non-number.\<close>

fun int_eq_val :: "int \<Rightarrow> pyval \<Rightarrow> bool" where
  "int_eq_val c (Num n) = (of_int c = to_real n)"
| "int_eq_val c (Bool b) = (c = (if b then 1 else 0))"
| "int_eq_val c _ = False"

text \<open>
  Python 3's \<^verbatim>\<open>round\<close> with one argument returns an int and rounds a tie to the even
  neighbour (\<^verbatim>\<open>round(2.5) == 2\<close>, \<^verbatim>\<open>round(3.5) == 4\<close>).
\<close>

definition py_round_real :: "real \<Rightarrow> int" where
  "py_round_real x =
     (let f = \<lfloor>x\<rfloor>; d = x - of_int f
      in if d < 1 / 2 then f
         else if 1 / 2 < d then f + 1
         else if even f then f else f + 1)"

fun py_round :: "num \<Rightarrow> int" where
  "py_round (PyInt i) = i"
| "py_round (PyFloat x) = py_round_real x"

section \<open>The engine\<close>

text \<open>
  The tags \<^verbatim>\<open>"constant"\<close>, \<^verbatim>\<open>"float"\<close>, \<^verbatim>\<open>"int"\<close> and \<^verbatim>\<open>"bool"\<close> that
  \<^verbatim>\<open>_determine_variable_type\<close> returns (it returns \<^verbatim>\<open>None\<close> otherwise).
\<close>

datatype vkind = KConstant | KFloat | KInt | KBool

text \<open>
  The attribute \<^verbatim>\<open>goal\<close> is \<^verbatim>\<open>'max'\<close>, \<^verbatim>\<open>'min'\<close> or anything else; anything
  else is only ever used through \<^verbatim>\<open>float(self.goal)\<close>, so it is carried as the result of
  that conversion: \<open>Some t\<close>, or \<open>None\<close> when the conversion raises.
\<close>

datatype goal_setting = GoalMax | GoalMin | GoalOther "real option"

text \<open>
  The attributes of a \<^verbatim>\<open>Cruncher\<close> object. The evaluation function is a pure function
  from a parameter assignment to a score. (\<^verbatim>\<open>function\<close> is a reserved word of Isabelle,
  so the field is called \<open>func\<close>.)
\<close>

record cruncher =
  func :: "pyval dict \<Rightarrow> real"
  variables :: "pyval dict"
  points_per_split :: int
  iterations :: int
  goal :: goal_setting
  check_all_ints :: bool
  global_increment_storage :: "num dict"
  types :: "vkind option dict"

subsection \<open>Validation and classification\<close>

definition validate_list :: "pyval list \<Rightarrow> bool" where
  "validate_list some_list =
     (if length some_list \<noteq> 2
         \<or> type_of (some_list ! 0) \<notin> {TyFloat, TyInt}
         \<or> type_of (some_list ! 1) \<notin> {TyFloat, TyInt}
      then False else True)"

definition validate_tuple :: "pyval list \<Rightarrow> bool" where
  "validate_tuple some_tuple =
     (if length some_tuple \<noteq> 2 then False
      else if type_of (some_tuple ! 0) \<noteq> type_of (some_tuple ! 1) then False
      else if type_of (some_tuple ! 0) \<notin> {TyBool, TyInt} then False
      else True)"

definition validate_single :: "pyval \<Rightarrow> bool" where
  "validate_single value_to_check =
     (let ty = type_of value_to_check
      in if ty = TyInt \<or> ty = TyFloat then True
         else if ty = TyList then (case value_to_check of PyList xs \<Rightarrow> validate_list xs | _ \<Rightarrow> False)
         else if ty = TyTuple then (case value_to_check of PyTuple xs \<Rightarrow> validate_tuple xs | _ \<Rightarrow> False)
         else False)"

fun validate_keys :: "pyval dict \<Rightarrow> string list \<Rightarrow> error + unit" where
  "validate_keys vars [] = Inr ()"
| "validate_keys vars (key # rest) =
     (case getitem vars key of
        Inl err \<Rightarrow> Inl err
      | Inr v \<Rightarrow> if \<not> validate_single v then Inl (FailedValidation key)
                else validate_keys vars rest)"

definition validate_variables :: "pyval dict \<Rightarrow> error + unit" where
  "validate_variables vars =
     (if vars = [] then Inl VariablesMustExist else validate_keys vars (keys vars))"

definition determine_variable_type :: "pyval \<Rightarrow> error + vkind option" where
  "determine_variable_type value_to_check =
     (let ty = type_of value_to_check
      in if ty \<in> {TyFloat, TyInt} then Inr (Some KConstant)
         else if ty = TyList then Inr (Some KFloat)
         else if ty = TyTuple then
           (case subscript value_to_check 0 of
              Inl err \<Rightarrow> Inl err
            | Inr v0 \<Rightarrow> Inr (Some (if type_of v0 = TyInt then KInt else KBool)))
         else Inr None)"

fun sort_keys_loop :: "pyval dict \<Rightarrow> string list \<Rightarrow> vkind option dict \<Rightarrow> error + vkind option dict" where
  "sort_keys_loop vars [] key_types = Inr key_types"
| "sort_keys_loop vars (key # rest) key_types =
     (case getitem vars key of
        Inl err \<Rightarrow> Inl err
      | Inr v \<Rightarrow>
          (case determine_variable_type v of
             Inl err \<Rightarrow> Inl err
           | Inr ty \<Rightarrow> sort_keys_loop vars rest (AList.update key ty key_types)))"

definition sort_keys :: "pyval dict \<Rightarrow> error + vkind option dict" where
  "sort_keys vars = sort_keys_loop vars (keys vars) []"

text \<open>\<^verbatim>\<open>Cruncher.__init__\<close>: the checks in the order the constructor makes them.\<close>

definition init ::
  "(pyval dict \<Rightarrow> real) \<Rightarrow> pyval dict \<Rightarrow> int \<Rightarrow> int \<Rightarrow> goal_setting \<Rightarrow> bool \<Rightarrow> error + cruncher" where
  "init f vars pps its g cai =
     (if pps < 3 then Inl (TooFewPoints pps)
      else if its < 1 then Inl NoIterations
      else (case validate_variables vars of
              Inl err \<Rightarrow> Inl err
            | Inr _ \<Rightarrow>
                (case sort_keys vars of
                   Inl err \<Rightarrow> Inl err
                 | Inr ts \<Rightarrow>
                     Inr \<lparr> func = f, variables = vars, points_per_split = pps,
                           iterations = its, goal = g, check_all_ints = cai,
                           global_increment_storage = [], types = ts \<rparr>)))"

subsection \<open>Candidate values of one variable\<close>

text \<open>The operand of \<^verbatim>\<open>range\<close>: an int (a bool counts as one), never a float.\<close>

fun as_int :: "pyval \<Rightarrow> error + int" where
  "as_int (Num (PyInt i)) = Inr i"
| "as_int (Bool b) = Inr (if b then 1 else 0)"
| "as_int _ = Inl TypeError"

text \<open>\<^verbatim>\<open>xs[-1]\<close> used as an arithmetic operand.\<close>

definition last_num :: "pyval list \<Rightarrow> error + num" where
  "last_num xs = (if xs = [] then Inl IndexError else as_num (last xs))"

text \<open>\<^verbatim>\<open>_get_every_int_in_tuple\<close>: \<^verbatim>\<open>range(t[0], t[1]+1)\<close>, element by element.\<close>

definition get_every_int_in_tuple :: "pyval \<Rightarrow> error + pyval list" where
  "get_every_int_in_tuple t =
     (case subscript t 0 of
        Inl err \<Rightarrow> Inl err
      | Inr t0 \<Rightarrow>
      (case subscript t 1 of
        Inl err \<Rightarrow> Inl err
      | Inr t1 \<Rightarrow>
      (case as_int t0 of
        Inl err \<Rightarrow> Inl err
      | Inr lo \<Rightarrow>
      (case as_int t1 of
        Inl err \<Rightarrow> Inl err
      | Inr hi \<Rightarrow> Inr (map (\<lambda>x. Num (PyInt x)) [lo..hi])))))"

text \<open>
  The loop of \<^verbatim>\<open>_split_int_tuple_and_get_increment\<close>; its state is the pair of lists
  \<^verbatim>\<open>points\<close> and \<^verbatim>\<open>points_but_float\<close>, its first argument the number of rounds left.
\<close>

fun split_int_loop ::
  "nat \<Rightarrow> num \<Rightarrow> pyval \<Rightarrow> pyval list \<times> pyval list \<Rightarrow> error + (pyval list \<times> pyval list)" where
  "split_int_loop 0 increment t1 (points, points_but_float) = Inr (points, points_but_float)"
| "split_int_loop (Suc n) increment t1 (points, points_but_float) =
     (case last_num points_but_float of
        Inl err \<Rightarrow> Inl err
      | Inr p \<Rightarrow>
          (let nxt = num_add p increment;
               c = py_round nxt
           in split_int_loop n increment t1
                (if \<not> list_ex (int_eq_val c) points \<and> \<not> int_eq_val c t1
                 then points @ [Num (PyInt c)] else points,
                 points_but_float @ [Num nxt])))"

definition split_int_tuple_and_get_increment :: "cruncher \<Rightarrow> pyval \<Rightarrow> error + (pyval list \<times> num)" where
  "split_int_tuple_and_get_increment e t =
     (case subscript t 1 of
        Inl err \<Rightarrow> Inl err
      | Inr t1 \<Rightarrow>
      (case subscript t 0 of
        Inl err \<Rightarrow> Inl err
      | Inr t0 \<Rightarrow>
      (case as_num t1 of
        Inl err \<Rightarrow> Inl err
      | Inr n1 \<Rightarrow>
      (case as_num t0 of
        Inl err \<Rightarrow> Inl err
      | Inr n0 \<Rightarrow>
      (case num_truediv (num_sub n1 n0) (PyInt (points_per_split e - 1)) of
        Inl err \<Rightarrow> Inl err
      | Inr increment \<Rightarrow>
      (case split_int_loop (nat (points_per_split e - 2)) increment t1 ([t0], [t0]) of
        Inl err \<Rightarrow> Inl err
      | Inr (points, points_but_float) \<Rightarrow> Inr (points @ [t1], increment)))))))"

text \<open>The loop of \<^verbatim>\<open>_split_float_list_and_get_increment\<close>.\<close>

fun split_float_loop :: "nat \<Rightarrow> num \<Rightarrow> pyval list \<Rightarrow> error + pyval list" where
  "split_float_loop 0 increment points = Inr points"
| "split_float_loop (Suc n) increment points =
     (case last_num points of
        Inl err \<Rightarrow> Inl err
      | Inr p \<Rightarrow> split_float_loop n increment (points @ [Num (num_add p increment)]))"

definition split_float_list_and_get_increment :: "cruncher \<Rightarrow> pyval \<Rightarrow> error + (pyval list \<times> num)" where
  "split_float_list_and_get_increment e l =
     (case subscript l 1 of
        Inl err \<Rightarrow> Inl err
      | Inr l1 \<Rightarrow>
      (case subscript l 0 of
        Inl err \<Rightarrow> Inl err
      | Inr l0 \<Rightarrow>
      (case as_num l1 of
        Inl err \<Rightarrow> Inl err
      | Inr n1 \<Rightarrow>
      (case as_num l0 of
        Inl err \<Rightarrow> Inl err
      | Inr n0 \<Rightarrow>
      (case num_truediv (num_sub n1 n0) (PyInt (points_per_split e - 1)) of
        Inl err \<Rightarrow> Inl err
      | Inr increment \<Rightarrow>
      (case split_float_loop (nat (points_per_split e - 2)) increment [l0] of
        Inl err \<Rightarrow> Inl err
      | Inr points \<Rightarrow> Inr (points @ [l1], increment)))))))"

subsection \<open>The point-set generator\<close>

text \<open>
  One round of the first loop of \<^verbatim>\<open>_generate_test_points\<close>: the candidate list of
  \<open>key\<close> and the increment stored for it, by the kind recorded in \<^verbatim>\<open>self.types\<close>.
\<close>

definition key_options :: "cruncher \<Rightarrow> pyval dict \<Rightarrow> string \<Rightarrow> error + (pyval list \<times> num)" where
  "key_options e some_variable_dic_of_ranges key =
     (case getitem (types e) key of
        Inl err \<Rightarrow> Inl err
      | Inr ty \<Rightarrow>
          if ty = Some KConstant then
            (case getitem some_variable_dic_of_ranges key of
               Inl err \<Rightarrow> Inl err
             | Inr v \<Rightarrow> Inr ([v], PyInt 0))
          else if ty = Some KFloat then
            (case getitem some_variable_dic_of_ranges key of
               Inl err \<Rightarrow> Inl err
             | Inr v \<Rightarrow> split_float_list_and_get_increment e v)
          else if ty = Some KInt then
            (if check_all_ints e then
               (case getitem some_variable_dic_of_ranges key of
                  Inl err \<Rightarrow> Inl err
                | Inr v \<Rightarrow>
                    (case get_every_int_in_tuple v of
                       Inl err \<Rightarrow> Inl err
                     | Inr pts \<Rightarrow> Inr (pts, PyInt 0)))
             else
               (case getitem some_variable_dic_of_ranges key of
                  Inl err \<Rightarrow> Inl err
                | Inr v \<Rightarrow> split_int_tuple_and_get_increment e v))
          else if ty = Some KBool then Inr ([Bool True, Bool False], PyInt 0)
          else Inl UnidentifiedType)"

text \<open>
  The first loop over \<^verbatim>\<open>self.variables.keys()\<close>; its state is \<^verbatim>\<open>option_dic\<close> and
  the table \<^verbatim>\<open>self.global_increment_storage\<close>.
\<close>

fun generate_options ::
  "cruncher \<Rightarrow> pyval dict \<Rightarrow> string list \<Rightarrow> (pyval list) dict \<times> num dict
     \<Rightarrow> error + ((pyval list) dict \<times> num dict)" where
  "generate_options e space [] (option_dic, storage) = Inr (option_dic, storage)"
| "generate_options e space (key # rest) (option_dic, storage) =
     (case key_options e space key of
        Inl err \<Rightarrow> Inl err
      | Inr (points, inc) \<Rightarrow>
          generate_options e space rest
            (AList.update key points option_dic, AList.update key inc storage))"

text \<open>\<^verbatim>\<open>itertools.product(*arrs)\<close>: the last list varies fastest.\<close>

fun itertools_product :: "'a list list \<Rightarrow> 'a list list" where
  "itertools_product [] = [[]]"
| "itertools_product (arr # arrs) =
     concat (map (\<lambda>x. map (\<lambda>combo. x # combo) (itertools_product arrs)) arr)"

text \<open>The dict built from one combination: \<^verbatim>\<open>new_dict[l_keys[x]] = combo[x]\<close>.\<close>

definition combo_dict :: "string list \<Rightarrow> pyval list \<Rightarrow> pyval dict" where
  "combo_dict l_keys combo =
     foldl (\<lambda>new_dict x. AList.update (l_keys ! x) (combo ! x) new_dict) [] [0..<length combo]"

text \<open>
  \<^verbatim>\<open>_generate_test_points\<close>: the batch, and the engine with its increment table
  overwritten. (\<^verbatim>\<open>arrs\<close> and \<^verbatim>\<open>l_keys\<close> are the values and the keys of
  \<^verbatim>\<open>option_dic\<close> in its order.)
\<close>

definition generate_test_points :: "cruncher \<Rightarrow> pyval dict \<Rightarrow> error + (pyval dict list \<times> cruncher)" where
  "generate_test_points e some_variable_dic_of_ranges =
     (case generate_options e some_variable_dic_of_ranges (keys (variables e))
             ([], global_increment_storage e) of
        Inl err \<Rightarrow> Inl err
      | Inr (option_dic, storage) \<Rightarrow>
          Inr (map (combo_dict (keys option_dic)) (itertools_product (map snd option_dic)),
               e\<lparr>global_increment_storage := storage\<rparr>))"

subsection \<open>The selector\<close>

definition closeness :: "real \<Rightarrow> real \<Rightarrow> real" where
  "closeness g v = \<bar>g - v\<bar>"

text \<open>
  The loop of \<^verbatim>\<open>_find_ideal_choice\<close>. Its state is \<^verbatim>\<open>best_val_var_pair\<close> (the empty
  tuple, here \<open>None\<close>, until the first assignment has been evaluated) together with the
  list of the assignments \<^verbatim>\<open>self.function\<close> has been called on so far, in call order:
  calling the evaluation function is the one effect of the selector.
\<close>

fun find_ideal_loop ::
  "cruncher \<Rightarrow> pyval dict list \<Rightarrow> (real \<times> pyval dict) option \<times> pyval dict list
     \<Rightarrow> error + ((real \<times> pyval dict) option \<times> pyval dict list)" where
  "find_ideal_loop e [] (best_val_var_pair, calls) = Inr (best_val_var_pair, calls)"
| "find_ideal_loop e (var_set # rest) (None, calls) =
     find_ideal_loop e rest (Some (func e var_set, var_set), calls @ [var_set])"
| "find_ideal_loop e (var_set # rest) (Some (best_val, best_vars), calls) =
     (let val = func e var_set
      in if goal e = GoalMax then
           find_ideal_loop e rest
             (if best_val < val then Some (val, var_set) else Some (best_val, best_vars),
              calls @ [var_set])
         else if goal e = GoalMin then
           find_ideal_loop e rest
             (if val < best_val then Some (val, var_set) else Some (best_val, best_vars),
              calls @ [var_set])
         else
           (case goal e of
              GoalOther (Some float_of_goal) \<Rightarrow>
                find_ideal_loop e rest
                  (if closeness float_of_goal val < closeness float_of_goal best_val
                   then Some (val, var_set) else Some (best_val, best_vars),
                   calls @ [var_set])
            | _ \<Rightarrow> Inl ValueError))"

definition find_ideal_choice ::
  "cruncher \<Rightarrow> pyval dict list \<Rightarrow> error + ((real \<times> pyval dict) option \<times> pyval dict list)" where
  "find_ideal_choice e list_of_dictionary_variables =
     find_ideal_loop e list_of_dictionary_variables (None, [])"

subsection \<open>The range narrower\<close>

text \<open>
  The block the source repeats after each window computation:
  \<^verbatim>\<open>if start < self.variables[key][0]: start = self.variables[key][0]\<close> and
  \<^verbatim>\<open>if end > self.variables[key][1]: end = self.variables[key][1]\<close>.
\<close>

definition clamp_to_declared :: "cruncher \<Rightarrow> string \<Rightarrow> num \<Rightarrow> num \<Rightarrow> error + (pyval \<times> pyval)" where
  "clamp_to_declared e key start endv =
     (case getitem (variables e) key of
        Inl err \<Rightarrow> Inl err
      | Inr decl \<Rightarrow>
      (case subscript decl 0 of
        Inl err \<Rightarrow> Inl err
      | Inr lo \<Rightarrow>
      (case as_num lo of
        Inl err \<Rightarrow> Inl err
      | Inr nlo \<Rightarrow>
      (case subscript decl 1 of
        Inl err \<Rightarrow> Inl err
      | Inr hi \<Rightarrow>
      (case as_num hi of
        Inl err \<Rightarrow> Inl err
      | Inr nhi \<Rightarrow>
          Inr (if num_lt start nlo then lo else Num start,
               if num_lt nhi endv then hi else Num endv))))))"

text \<open>
  One round of the loop of \<^verbatim>\<open>_convert_best_val_var_pair_into_ranges\<close>: the new entry for
  \<open>key\<close>, or \<open>None\<close> when no branch of the \<^verbatim>\<open>if\<close>/\<^verbatim>\<open>elif\<close> chain applies.
\<close>

definition narrow_key :: "cruncher \<Rightarrow> pyval dict \<Rightarrow> string \<Rightarrow> error + pyval option" where
  "narrow_key e best_vars key =
     (case getitem (types e) key of
        Inl err \<Rightarrow> Inl err
      | Inr ty \<Rightarrow>
          if ty = Some KConstant then
            (case getitem best_vars key of
               Inl err \<Rightarrow> Inl err
             | Inr v \<Rightarrow> Inr (Some v))
          else if ty = Some KBool then Inr (Some (PyTuple [Bool True, Bool False]))
          else if ty = Some KInt then
            (if check_all_ints e then
               (case getitem (variables e) key of
                  Inl err \<Rightarrow> Inl err
                | Inr decl \<Rightarrow>
                (case subscript decl 0 of
                  Inl err \<Rightarrow> Inl err
                | Inr lo \<Rightarrow>
                (case subscript decl 1 of
                  Inl err \<Rightarrow> Inl err
                | Inr hi \<Rightarrow> Inr (Some (PyTuple [lo, hi])))))
             else
               (case getitem (global_increment_storage e) key of
                  Inl err \<Rightarrow> Inl err
                | Inr inc \<Rightarrow>
                (case getitem best_vars key of
                  Inl err \<Rightarrow> Inl err
                | Inr v \<Rightarrow>
                (case as_num v of
                  Inl err \<Rightarrow> Inl err
                | Inr b \<Rightarrow>
                    if num_lt inc (PyInt 1) then
                      (case clamp_to_declared e key (num_sub b (PyInt 1)) (num_add b (PyInt 1)) of
                         Inl err \<Rightarrow> Inl err
                       | Inr (start, endv) \<Rightarrow> Inr (Some (PyTuple [start, endv])))
                    else
                      (case clamp_to_declared e key
                              (PyInt (py_round (num_sub b inc))) (PyInt (py_round (num_add b inc))) of
                         Inl err \<Rightarrow> Inl err
                       | Inr (start, endv) \<Rightarrow> Inr (Some (PyTuple [start, endv])))))))
          else if ty = Some KFloat then
            (case getitem (global_increment_storage e) key of
               Inl err \<Rightarrow> Inl err
             | Inr inc \<Rightarrow>
             (case getitem best_vars key of
               Inl err \<Rightarrow> Inl err
             | Inr v \<Rightarrow>
             (case as_num v of
               Inl err \<Rightarrow> Inl err
             | Inr b \<Rightarrow>
                 (case clamp_to_declared e key (num_sub b inc) (num_add b inc) of
                    Inl err \<Rightarrow> Inl err
                  | Inr (start, endv) \<Rightarrow> Inr (Some (PyList [start, endv]))))))
          else Inr None)"

fun convert_loop :: "cruncher \<Rightarrow> pyval dict \<Rightarrow> string list \<Rightarrow> pyval dict \<Rightarrow> error + pyval dict" where
  "convert_loop e best_vars [] new_range = Inr new_range"
| "convert_loop e best_vars (key # rest) new_range =
     (case narrow_key e best_vars key of
        Inl err \<Rightarrow> Inl err
      | Inr None \<Rightarrow> convert_loop e best_vars rest new_range
      | Inr (Some v) \<Rightarrow> convert_loop e best_vars rest (AList.update key v new_range))"

definition convert_best_val_var_pair_into_ranges ::
  "cruncher \<Rightarrow> real \<times> pyval dict \<Rightarrow> error + pyval dict" where
  "convert_best_val_var_pair_into_ranges e best_val_var_pair =
     convert_loop e (snd best_val_var_pair) (keys (snd best_val_var_pair)) []"

subsection \<open>The search driver\<close>

text \<open>
  \<open>target_reached\<close> is the condition
  \<^verbatim>\<open>self.goal not in ['max', 'min'] and ret == float(self.goal)\<close>.
  The body of the loop of \<^verbatim>\<open>crunch\<close> follows. It yields the best pair of the batch and either
  \<open>None\<close>, when the \<^verbatim>\<open>return\<close> inside the loop is taken, or the narrowed search space,
  the next batch and the engine as the generator left it. Unpacking the empty tuple that
  the selector returns for an empty batch raises \<^verbatim>\<open>ValueError\<close>.
\<close>

definition target_reached :: "cruncher \<Rightarrow> real \<Rightarrow> error + bool" where
  "target_reached e ret =
     (if goal e = GoalMax \<or> goal e = GoalMin then Inr False
      else (case goal e of
              GoalOther (Some float_of_goal) \<Rightarrow> Inr (ret = float_of_goal)
            | _ \<Rightarrow> Inl ValueError))"

definition crunch_iteration ::
  "cruncher \<Rightarrow> pyval dict list
     \<Rightarrow> error + ((real \<times> pyval dict) \<times> (pyval dict \<times> pyval dict list \<times> cruncher) option)" where
  "crunch_iteration e points =
     (case find_ideal_choice e points of
        Inl err \<Rightarrow> Inl err
      | Inr (None, calls) \<Rightarrow> Inl ValueError
      | Inr (Some (ret, vars), calls) \<Rightarrow>
          (case target_reached e ret of
             Inl err \<Rightarrow> Inl err
           | Inr True \<Rightarrow> Inr ((ret, vars), None)
           | Inr False \<Rightarrow>
               (case convert_best_val_var_pair_into_ranges e (ret, vars) of
                  Inl err \<Rightarrow> Inl err
                | Inr var_range \<Rightarrow>
                    (case generate_test_points e var_range of
                       Inl err \<Rightarrow> Inl err
                     | Inr (points', e') \<Rightarrow> Inr ((ret, vars), Some (var_range, points', e'))))))"

text \<open>
  \<^verbatim>\<open>for x in range(self.iterations)\<close>; \<open>last\<close> holds \<^verbatim>\<open>ret, vars\<close>, unbound before the
  first round. The result is the returned pair and the engine as the run left it.
\<close>

fun crunch_loop ::
  "nat \<Rightarrow> cruncher \<Rightarrow> pyval dict list \<Rightarrow> (real \<times> pyval dict) option
     \<Rightarrow> error + ((real \<times> pyval dict) \<times> cruncher)" where
  "crunch_loop 0 e points last_pair =
     (case last_pair of None \<Rightarrow> Inl UnboundLocalError | Some r \<Rightarrow> Inr (r, e))"
| "crunch_loop (Suc n) e points last_pair =
     (case crunch_iteration e points of
        Inl err \<Rightarrow> Inl err
      | Inr (best, None) \<Rightarrow> Inr (best, e)
      | Inr (best, Some (var_range, points', e')) \<Rightarrow> crunch_loop n e' points' (Some best))"

definition crunch :: "cruncher \<Rightarrow> error + ((real \<times> pyval dict) \<times> cruncher)" where
  "crunch e =
     (case generate_test_points e (variables e) of
        Inl err \<Rightarrow> Inl err
      | Inr (points, e1) \<Rightarrow> crunch_loop (nat (iterations e1)) e1 points None)"

text \<open>
  The state of a run at the top of round \<open>k\<close> of the loop (counted from 0), when the run
  gets that far: the engine, the search space the current batch was generated from, and
  the batch. It is built from the same loop body as \<^const>\<open>crunch_loop\<close>.
\<close>

fun crunch_state_at ::
  "nat \<Rightarrow> cruncher \<times> pyval dict \<times> pyval dict list \<Rightarrow> (cruncher \<times> pyval dict \<times> pyval dict list) option" where
  "crunch_state_at 0 st = Some st"
| "crunch_state_at (Suc k) (e, space, points) =
     (case crunch_iteration e points of
        Inr (best, Some (var_range, points', e')) \<Rightarrow> crunch_state_at k (e', var_range, points')
      | _ \<Rightarrow> None)"

definition crunch_start :: "cruncher \<Rightarrow> (cruncher \<times> pyval dict \<times> pyval dict list) option" where
  "crunch_start e =
     (case generate_test_points e (variables e) of
        Inl err \<Rightarrow> None
      | Inr (points, e1) \<Rightarrow> Some (e1, variables e, points))"

subsection \<open>The time estimate\<close>

text \<open>
  The counters of \<^verbatim>\<open>_pretty_print_estimated_time_in_seconds\<close>: years, months, weeks,
  days, hours, minutes, seconds. The source returns them formatted into one string.
\<close>

type_synonym breakdown = "nat \<times> nat \<times> nat \<times> nat \<times> nat \<times> nat \<times> nat"

lemma ceiling_decrease: "1 < (s::real) \<Longrightarrow> 1 \<le> c \<Longrightarrow> nat \<lceil>s - c\<rceil> < nat \<lceil>s\<rceil>"
proof -
  assume a: "1 < s" "1 \<le> c"
  have "\<lceil>s - c\<rceil> \<le> \<lceil>s - 1\<rceil>" using a by (intro ceiling_mono) simp
  also have "\<dots> = \<lceil>s\<rceil> - 1" by simp
  finally have "\<lceil>s - c\<rceil> < \<lceil>s\<rceil>" by simp
  moreover have "0 < \<lceil>s\<rceil>" using a by (simp add: ceiling_less_iff less_ceiling_iff)
  ultimately show ?thesis by linarith
qed

function pretty_print_loop :: "real \<Rightarrow> breakdown \<Rightarrow> breakdown" where
  "pretty_print_loop seconds (years, months, weeks, days, hours, minutes, secs) =
     (if 1 < seconds then
        (if 1 < seconds - 31557600 then
           pretty_print_loop (seconds - 31557600) (years + 1, months, weeks, days, hours, minutes, secs)
         else if 1 < seconds - 2629800 then
           pretty_print_loop (seconds - 2629800) (years, months + 1, weeks, days, hours, minutes, secs)
         else if 1 < seconds - 604800 then
           pretty_print_loop (seconds - 604800) (years, months, weeks + 1, days, hours, minutes, secs)
         else if 1 < seconds - 86400 then
           pretty_print_loop (seconds - 86400) (years, months, weeks, days + 1, hours, minutes, secs)
         else if 1 < seconds - 3600 then
           pretty_print_loop (seconds - 3600) (years, months, weeks, days, hours + 1, minutes, secs)
         else if 1 < seconds - 60 then
           pretty_print_loop (seconds - 60) (years, months, weeks, days, hours, minutes + 1, secs)
         else
           pretty_print_loop (seconds - 1) (years, months, weeks, days, hours, minutes, secs + 1))
      else (years, months, weeks, days, hours, minutes, secs))"
  by pat_completeness auto
termination
  by (relation "measure (\<lambda>(seconds, _). nat \<lceil>seconds\<rceil>)") (simp_all add: ceiling_decrease)

definition pretty_print_estimated_time_in_seconds :: "real \<Rightarrow> breakdown" where
  "pretty_print_estimated_time_in_seconds seconds = pretty_print_loop seconds (0, 0, 0, 0, 0, 0, 0)"

text \<open>The counting loop of \<^verbatim>\<open>estimate_crunch_time\<close>: (num_bool, num_int, num_float).\<close>

fun count_types :: "vkind option dict \<Rightarrow> string list \<Rightarrow> nat \<times> nat \<times> nat \<Rightarrow> nat \<times> nat \<times> nat" where
  "count_types ts [] counts = counts"
| "count_types ts (key # rest) (num_bool, num_int, num_float) =
     count_types ts rest
       (if map_of ts key = Some (Some KBool) then (num_bool + 1, num_int, num_float)
        else if map_of ts key = Some (Some KInt) then (num_bool, num_int + 1, num_float)
        else if map_of ts key = Some (Some KFloat) then (num_bool, num_int, num_float + 1)
        else (num_bool, num_int, num_float))"

text \<open>
  The number of seconds \<^verbatim>\<open>estimate_crunch_time\<close> hands to the pretty printer, or \<open>None\<close>
  when it returns the message that the estimate is not supported.
\<close>

definition estimated_seconds :: "cruncher \<Rightarrow> real \<Rightarrow> real option" where
  "estimated_seconds e time_of_one_sim_in_seconds =
     (case count_types (types e) (keys (types e)) (0, 0, 0) of
        (num_bool, num_int, num_float) \<Rightarrow>
          if \<not> check_all_ints e then
            (if num_bool \<noteq> 0 then
               Some (time_of_one_sim_in_seconds
                     * of_int (points_per_split e) ^ (num_int + num_float)
                     * of_nat (2 * num_bool) * of_int (iterations e))
             else
               Some (time_of_one_sim_in_seconds
                     * of_int (points_per_split e) ^ (num_int + num_float)
                     * of_int (iterations e)))
          else None)"

datatype estimate = Estimated breakdown | NotSupported

definition estimate_crunch_time :: "cruncher \<Rightarrow> real \<Rightarrow> estimate" where
  "estimate_crunch_time e time_of_one_sim_in_seconds =
     (case estimated_seconds e time_of_one_sim_in_seconds of
        Some seconds \<Rightarrow> Estimated (pretty_print_estimated_time_in_seconds seconds)
      | None \<Rightarrow> NotSupported)"

section \<open>Notions of the specification\<close>

text \<open>
  The declarations the constructor accepts, shape by shape: a number, a two-element list
  of numbers, a two-element tuple of ints, a two-element tuple of bools.
\<close>

fun recognized_shape :: "pyval \<Rightarrow> bool" where
  "recognized_shape (Num _) = True"
| "recognized_shape (PyList [Num _, Num _]) = True"
| "recognized_shape (PyTuple [Num (PyInt _), Num (PyInt _)]) = True"
| "recognized_shape (PyTuple [Bool _, Bool _]) = True"
| "recognized_shape _ = False"




text \<open>
  The comparison of the selector, in the words of the specification: the score \<open>v\<close> of a
  new point replaces the incumbent score \<open>b\<close> under \<^verbatim>\<open>'max'\<close> iff it is strictly greater,
  under \<^verbatim>\<open>'min'\<close> iff it is strictly less, under a numeric target \<open>t\<close> iff it is
  strictly closer to \<open>t\<close>.
\<close>

fun replaces :: "goal_setting \<Rightarrow> real \<Rightarrow> real \<Rightarrow> bool" where
  "replaces GoalMax v b = (b < v)"
| "replaces GoalMin v b = (v < b)"
| "replaces (GoalOther (Some t)) v b = (\<bar>t - v\<bar> < \<bar>t - b\<bar>)"
| "replaces (GoalOther None) v b = False"





text \<open>
  The kind \<^verbatim>\<open>_determine_variable_type\<close> gives a declaration of a recognized shape.
\<close>

fun kind_of :: "pyval \<Rightarrow> vkind option" where
  "kind_of (Num _) = Some KConstant"
| "kind_of (PyList _) = Some KFloat"
| "kind_of (PyTuple (Num (PyInt _) # _)) = Some KInt"
| "kind_of (PyTuple _) = Some KBool"
| "kind_of _ = None"

text \<open>
  An engine as the constructor leaves it, whatever is done to its other attributes
  afterwards: the search space is a dict (no key twice), every declaration has a
  recognized shape, and \<^verbatim>\<open>self.types\<close> holds the kind of each.
\<close>

definition well_formed :: "cruncher \<Rightarrow> bool" where
  "well_formed e \<longleftrightarrow>
     distinct (keys (variables e))
     \<and> (\<forall>(k, decl)\<in>set (variables e).
           recognized_shape decl \<and> getitem (types e) k = Inr (kind_of decl))"

text \<open>
  A narrowed entry against the declaration it comes from: a constant is the declared
  value, a float or integer range lies within the declared bounds, and a boolean is the
  pair \<^verbatim>\<open>(True, False)\<close>.
\<close>

fun float_range_within :: "real \<Rightarrow> real \<Rightarrow> pyval \<Rightarrow> bool" where
  "float_range_within lo hi (PyList [Num a, Num b]) = (lo \<le> to_real a \<and> to_real b \<le> hi)"
| "float_range_within lo hi _ = False"

fun int_range_within :: "int \<Rightarrow> int \<Rightarrow> pyval \<Rightarrow> bool" where
  "int_range_within lo hi (PyTuple [Num (PyInt a), Num (PyInt b)]) = (lo \<le> a \<and> b \<le> hi)"
| "int_range_within lo hi _ = False"

fun within_declared :: "pyval \<Rightarrow> pyval \<Rightarrow> bool" where
  "within_declared (Num c) cur = (cur = Num c)"
| "within_declared (PyList [Num lo, Num hi]) cur = float_range_within (to_real lo) (to_real hi) cur"
| "within_declared (PyTuple [Num (PyInt lo), Num (PyInt hi)]) cur = int_range_within lo hi cur"
| "within_declared (PyTuple [Bool b1, Bool b2]) cur = (cur = PyTuple [Bool True, Bool False])"
| "within_declared _ _ = False"

text \<open>
  A search space the generator is run on during a search: each entry is the declaration
  itself or lies within it, and under \<^verbatim>\<open>check_all_ints\<close> an integer range is the
  declared one. After a narrowing the first alternative is gone (\<open>narrowed_ok\<close>).
\<close>

definition space_ok :: "cruncher \<Rightarrow> pyval dict \<Rightarrow> bool" where
  "space_ok e space \<longleftrightarrow>
     (\<forall>(k, decl)\<in>set (variables e).
        \<exists>cur. getitem space k = Inr cur
              \<and> (within_declared decl cur \<or> cur = decl)
              \<and> (check_all_ints e \<and> kind_of decl = Some KInt \<longrightarrow> cur = decl))"

definition narrowed_ok :: "cruncher \<Rightarrow> pyval dict \<Rightarrow> bool" where
  "narrowed_ok e space \<longleftrightarrow>
     (\<forall>(k, decl)\<in>set (variables e).
        \<exists>cur. getitem space k = Inr cur
              \<and> within_declared decl cur
              \<and> (check_all_ints e \<and> kind_of decl = Some KInt \<longrightarrow> cur = decl))"


text \<open>What a call of \<^verbatim>\<open>crunch\<close> returns or raises, without the engine it leaves behind.\<close>

definition result_of :: "error + ('a \<times> cruncher) \<Rightarrow> error + 'a" where
  "result_of r = (case r of Inl err \<Rightarrow> Inl err | Inr (p, e) \<Rightarrow> Inr p)"




text \<open>
  The end-to-end example of the specification (\<open>f(x) = -(x - 7)\<^sup>2\<close> on the float range
  \<open>[0, 10]\<close>, three points per split, two iterations), with an integer range, a constant
  and a boolean declared as \<^verbatim>\<open>(False, True)\<close> beside it; then its first batch, the increment
  table of the first generation, and the search space after the first narrowing.
\<close>

abbreviation score_parabola :: "pyval dict \<Rightarrow> real" where
  "score_parabola \<equiv> (\<lambda>a. case map_of a ''x'' of Some (Num n) \<Rightarrow> - ((to_real n - 7)\<^sup>2) | _ \<Rightarrow> 0)"

abbreviation mixed_vars :: "pyval dict" where
  "mixed_vars \<equiv> [(''x'', PyList [Num (PyInt 0), Num (PyInt 10)]),
                  (''n'', PyTuple [Num (PyInt 0), Num (PyInt 10)]),
                  (''c'', Num (PyInt 5)),
                  (''d'', PyTuple [Bool False, Bool True])]"

abbreviation mixed :: cruncher where
  "mixed \<equiv>
     \<lparr> func = score_parabola, variables = mixed_vars,
       points_per_split = 3, iterations = 2, goal = GoalMax, check_all_ints = False,
       global_increment_storage = [],
       types = [(''x'', Some KFloat), (''n'', Some KInt), (''c'', Some KConstant), (''d'', Some KBool)] \<rparr>"

abbreviation mixed_batch :: "pyval dict list" where
  "mixed_batch \<equiv>
      map (\<lambda>(x, n, d). [(''x'', Num x), (''n'', Num (PyInt n)), (''c'', Num (PyInt 5)), (''d'', Bool d)])
        [(PyInt 0, 0, True), (PyInt 0, 0, False), (PyInt 0, 5, True), (PyInt 0, 5, False),
         (PyInt 0, 10, True), (PyInt 0, 10, False),
         (PyFloat 5, 0, True), (PyFloat 5, 0, False), (PyFloat 5, 5, True), (PyFloat 5, 5, False),
         (PyFloat 5, 10, True), (PyFloat 5, 10, False),
         (PyInt 10, 0, True), (PyInt 10, 0, False), (PyInt 10, 5, True), (PyInt 10, 5, False),
         (PyInt 10, 10, True), (PyInt 10, 10, False)]"

abbreviation mixed_table :: "num dict" where
  "mixed_table \<equiv> [(''x'', PyFloat 5), (''n'', PyFloat 5), (''c'', PyInt 0), (''d'', PyInt 0)]"





text \<open>Three boolean variables, for the time estimate.\<close>

abbreviation three_bools_vars :: "pyval dict" where
  "three_bools_vars \<equiv> [(''a'', PyTuple [Bool True, Bool False]),
                        (''b'', PyTuple [Bool True, Bool False]),
                        (''c'', PyTuple [Bool True, Bool False])]"

abbreviation three_bools :: cruncher where
  "three_bools \<equiv>
     \<lparr> func = (\<lambda>a. 0), variables = three_bools_vars,
       points_per_split = 3, iterations = 1, goal = GoalMax, check_all_ints = False,
       global_increment_storage = [],
       types = [(''a'', Some KBool), (''b'', Some KBool), (''c'', Some KBool)] \<rparr>"

section \<open>Dictionaries\<close>

lemma getitem_in_keys: "k \<in> set (keys d) \<Longrightarrow> \<exists>v. getitem d k = Inr v \<and> (k, v) \<in> set d"
  unfolding keys_def getitem_def
  by (cases "map_of d k") (auto simp: map_of_eq_None_iff dest: map_of_SomeD)

lemma getitem_distinct: "distinct (keys d) \<Longrightarrow> (k, v) \<in> set d \<Longrightarrow> getitem d k = Inr v"
  unfolding keys_def getitem_def by simp

lemma keys_update_new: "k \<notin> set (keys d) \<Longrightarrow> keys (AList.update k v d) = keys d @ [k]"
  unfolding keys_def by (induction d) auto

lemma keys_update_old: "k \<in> set (keys d) \<Longrightarrow> keys (AList.update k v d) = keys d"
  unfolding keys_def by (induction d) auto

lemma getitem_update: "getitem (AList.update k v d) k' = (if k' = k then Inr v else getitem d k')"
  by (simp add: getitem_def update_conv')

lemma generate_options_keys:
  "generate_options e space ks (od, st) = Inr (od', st') \<Longrightarrow> distinct ks \<Longrightarrow>
   set ks \<inter> set (keys od) = {} \<Longrightarrow> keys od' = keys od @ ks"
proof (induction ks arbitrary: od st)
  case Nil then show ?case by simp
next
  case (Cons k ks)
  from Cons.prems(1) obtain pts inc where ko: "key_options e space k = Inr (pts, inc)"
    and rest: "generate_options e space ks (AList.update k pts od, AList.update k inc st) = Inr (od', st')"
    by (auto split: sum.splits)
  have knew: "k \<notin> set (keys od)" using Cons.prems(3) by auto
  have "keys od' = keys (AList.update k pts od) @ ks"
    using Cons.IH[OF rest] Cons.prems(2,3) knew by (auto simp: keys_update_new)
  then show ?case using knew by (simp add: keys_update_new)
qed

lemma generate_options_other:
  "generate_options e space ks (od, st) = Inr (od', st') \<Longrightarrow> k \<notin> set ks \<Longrightarrow>
   getitem od' k = getitem od k \<and> getitem st' k = getitem st k"
proof (induction ks arbitrary: od st)
  case Nil then show ?case by simp
next
  case (Cons a ks)
  from Cons.prems(1) obtain pts inc where ko: "key_options e space a = Inr (pts, inc)"
    and rest: "generate_options e space ks (AList.update a pts od, AList.update a inc st) = Inr (od', st')"
    by (auto split: sum.splits)
  from Cons.IH[OF rest] Cons.prems(2) show ?case by (simp add: getitem_update)
qed

lemma generate_options_at:
  "generate_options e space ks (od, st) = Inr (od', st') \<Longrightarrow> k \<in> set ks \<Longrightarrow>
   \<exists>pts inc. key_options e space k = Inr (pts, inc) \<and> getitem od' k = Inr pts \<and> getitem st' k = Inr inc"
proof (induction ks arbitrary: od st)
  case Nil then show ?case by simp
next
  case (Cons a ks)
  from Cons.prems(1) obtain pts inc where ko: "key_options e space a = Inr (pts, inc)"
    and rest: "generate_options e space ks (AList.update a pts od, AList.update a inc st) = Inr (od', st')"
    by (auto split: sum.splits)
  show ?case
  proof (cases "k \<in> set ks")
    case True
    from Cons.IH[OF rest True] show ?thesis .
  next
    case False
    with Cons.prems(2) have "k = a" by simp
    with generate_options_other[OF rest False] ko show ?thesis by (simp add: getitem_update)
  qed
qed

lemma generate_options_fail:
  "generate_options e space ks (od, st) = Inl err \<Longrightarrow> \<exists>k\<in>set ks. key_options e space k = Inl err"
  by (induction ks arbitrary: od st) (auto split: sum.splits)

lemma generate_options_succeeds:
  "\<forall>k\<in>set ks. \<exists>r. key_options e space k = Inr r \<Longrightarrow> \<exists>r. generate_options e space ks (od, st) = Inr r"
proof (induction ks arbitrary: od st)
  case Nil then show ?case by simp
next
  case (Cons a ks)
  then obtain pts inc where "key_options e space a = Inr (pts, inc)" by fastforce
  with Cons show ?case by simp
qed

lemma itertools_product_eq: "itertools_product xss = product_lists xss"
  by (induction xss) simp_all

lemma update_new: "k \<notin> fst ` set d \<Longrightarrow> AList.update k v d = d @ [(k, v)]"
  by (induction d) auto

lemma combo_dict_zip_aux:
  "distinct l_keys \<Longrightarrow> n \<le> length l_keys \<Longrightarrow> n \<le> length combo \<Longrightarrow>
   foldl (\<lambda>new_dict x. AList.update (l_keys ! x) (combo ! x) new_dict) [] [0..<n]
     = zip (take n l_keys) (take n combo)"
proof (induction n)
  case 0 show ?case by simp
next
  case (Suc n)
  let ?d = "zip (take n l_keys) (take n combo)"
  have notin: "l_keys ! n \<notin> fst ` set ?d"
  proof
    assume "l_keys ! n \<in> fst ` set ?d"
    then have "l_keys ! n \<in> set (take n l_keys)" by (auto dest: set_zip_leftD)
    then obtain i where "i < n" "l_keys ! i = l_keys ! n"
      using Suc.prems by (auto simp: in_set_conv_nth)
    with Suc.prems show False by (simp add: nth_eq_iff_index_eq)
  qed
  have "AList.update (l_keys ! n) (combo ! n) ?d = ?d @ [(l_keys ! n, combo ! n)]"
    using notin by (rule update_new)
  moreover have "zip (take (Suc n) l_keys) (take (Suc n) combo) = ?d @ [(l_keys ! n, combo ! n)]"
    using Suc.prems by (simp add: take_Suc_conv_app_nth)
  ultimately show ?case using Suc by simp
qed

lemma combo_dict_zip:
  "distinct l_keys \<Longrightarrow> length combo = length l_keys \<Longrightarrow> combo_dict l_keys combo = zip l_keys combo"
  unfolding combo_dict_def using combo_dict_zip_aux[of l_keys "length combo" combo] by simp

section \<open>The batch of a generation\<close>

lemma generate_test_points_unfold:
  assumes "generate_test_points e space = Inr (batch, e')" and "distinct (keys (variables e))"
  shows "\<exists>od st. generate_options e space (keys (variables e)) ([], global_increment_storage e) = Inr (od, st)
           \<and> e' = e\<lparr>global_increment_storage := st\<rparr>
           \<and> keys od = keys (variables e)
           \<and> batch = map (zip (keys od)) (product_lists (map snd od))"
proof -
  from assms(1) obtain od st where
    go: "generate_options e space (keys (variables e)) ([], global_increment_storage e) = Inr (od, st)"
    and b: "batch = map (combo_dict (keys od)) (itertools_product (map snd od))"
    and e': "e' = e\<lparr>global_increment_storage := st\<rparr>"
    unfolding generate_test_points_def by (auto split: sum.splits)
  have ks: "keys od = keys (variables e)"
    using generate_options_keys[OF go assms(2)] by (simp add: keys_def)
  have "map (combo_dict (keys od)) (product_lists (map snd od))
        = map (zip (keys od)) (product_lists (map snd od))"
  proof (rule map_cong[OF refl])
    fix c assume "c \<in> set (product_lists (map snd od))"
    then have "length c = length (keys od)"
      using in_set_product_lists_length[of c "map snd od"] by (simp add: keys_def)
    then show "combo_dict (keys od) c = zip (keys od) c"
      using assms(2) ks by (simp add: combo_dict_zip)
  qed
  with go b e' ks show ?thesis by (simp add: itertools_product_eq)
qed

lemma getitem_zip_nth:
  "distinct ks \<Longrightarrow> length c = length ks \<Longrightarrow> i < length ks \<Longrightarrow> getitem (zip ks c) (ks ! i) = Inr (c ! i)"
  unfolding getitem_def
  by (subst map_of_zip_nth) simp_all

lemma getitem_nth:
  "distinct (keys d) \<Longrightarrow> i < length d \<Longrightarrow> getitem d (keys d ! i) = Inr (snd (d ! i))"
  using getitem_distinct[of d "fst (d ! i)" "snd (d ! i)"] by (simp add: keys_def)

lemma batch_member:
  assumes gen: "generate_test_points e space = Inr (batch, e')"
    and dist: "distinct (keys (variables e))"
    and a: "a \<in> set batch"
  shows "keys a = keys (variables e)"
    and "k \<in> set (keys (variables e)) \<Longrightarrow>
         \<exists>pts inc v. key_options e space k = Inr (pts, inc) \<and> getitem a k = Inr v \<and> v \<in> set pts
                      \<and> getitem (global_increment_storage e') k = Inr inc"
proof -
  from generate_test_points_unfold[OF gen dist] obtain od st where
    go: "generate_options e space (keys (variables e)) ([], global_increment_storage e) = Inr (od, st)"
    and e': "e' = e\<lparr>global_increment_storage := st\<rparr>"
    and ks: "keys od = keys (variables e)"
    and b: "batch = map (zip (keys od)) (product_lists (map snd od))" by blast
  from a b obtain c where c: "c \<in> set (product_lists (map snd od))" and ac: "a = zip (keys od) c" by auto
  have len: "length c = length od" using in_set_product_lists_length[OF c] by simp
  have all2: "list_all2 (\<lambda>x ys. x \<in> set ys) c (map snd od)"
    using c by (simp add: product_lists_set)
  have len2: "length c = length (keys od)" using len by (simp add: keys_def)
  have "map fst (zip (keys od) c) = keys od" using len2 by simp
  then show "keys a = keys (variables e)" using ac ks by (simp add: keys_def)
  assume k: "k \<in> set (keys (variables e))"
  then obtain i where i: "i < length od" "keys od ! i = k"
    using ks by (metis in_set_conv_nth keys_def length_map)
  from generate_options_at[OF go k] obtain pts inc where
    ko: "key_options e space k = Inr (pts, inc)" and g1: "getitem od k = Inr pts"
    and g2: "getitem st k = Inr inc" by blast
  have "getitem od k = Inr (snd (od ! i))" using getitem_nth[of od i] dist ks i by simp
  with g1 have pts: "pts = snd (od ! i)" by simp
  have "c ! i \<in> set (map snd od ! i)" using list_all2_nthD[OF all2, of i] i len by simp
  then have ci: "c ! i \<in> set pts" using i pts by simp
  have dk: "distinct (keys od)" using dist ks by simp
  have ilen: "i < length (keys od)" using i by (simp add: keys_def)
  have "getitem (zip (keys od) c) (keys od ! i) = Inr (c ! i)"
    by (rule getitem_zip_nth[OF dk len2 ilen])
  then have "getitem a k = Inr (c ! i)" using ac i(2) by simp
  with ko ci g2 e' show "\<exists>pts inc v. key_options e space k = Inr (pts, inc) \<and> getitem a k = Inr v \<and> v \<in> set pts
                      \<and> getitem (global_increment_storage e') k = Inr inc" by auto
qed


section \<open>Construction\<close>

lemma type_of_Num: "type_of (Num n) = (case n of PyInt _ \<Rightarrow> TyInt | PyFloat _ \<Rightarrow> TyFloat)"
  by (cases n) simp_all

lemma validate_single_iff: "validate_single v = recognized_shape v"
  by (induction v rule: recognized_shape.induct)
     (auto simp: validate_single_def validate_list_def validate_tuple_def type_of_Num Let_def
           split: num.splits)

lemma validate_keys_ok:
  "set ks \<subseteq> set (keys vars) \<Longrightarrow>
   validate_keys vars ks = Inr () \<longleftrightarrow> (\<forall>k\<in>set ks. \<forall>v. getitem vars k = Inr v \<longrightarrow> validate_single v)"
proof (induction ks)
  case Nil then show ?case by simp
next
  case (Cons k ks)
  then obtain v where "getitem vars k = Inr v" using getitem_in_keys[of k vars] by auto
  with Cons show ?case by auto
qed

lemma validate_keys_result:
  "set ks \<subseteq> set (keys vars) \<Longrightarrow>
   validate_keys vars ks = Inr () \<or> (\<exists>k\<in>set ks. validate_keys vars ks = Inl (FailedValidation k))"
proof (induction ks)
  case Nil then show ?case by simp
next
  case (Cons k ks)
  then obtain v where "getitem vars k = Inr v" using getitem_in_keys[of k vars] by auto
  with Cons show ?case by auto
qed

lemma determine_recognized:
  "recognized_shape v \<Longrightarrow> \<exists>ty. determine_variable_type v = Inr (Some ty)"
  by (induction v rule: recognized_shape.induct)
     (auto simp: determine_variable_type_def type_of_Num Let_def split: num.splits)

lemma sort_keys_loop_ok:
  "set ks \<subseteq> set (keys vars) \<Longrightarrow> \<forall>k\<in>set ks. \<forall>v. getitem vars k = Inr v \<longrightarrow> recognized_shape v \<Longrightarrow>
   \<exists>ts. sort_keys_loop vars ks acc = Inr ts"
proof (induction ks arbitrary: acc)
  case Nil then show ?case by simp
next
  case (Cons k ks)
  then obtain v where v: "getitem vars k = Inr v" using getitem_in_keys[of k vars] by auto
  with Cons.prems have "recognized_shape v" by simp
  then obtain ty where "determine_variable_type v = Inr (Some ty)" using determine_recognized by blast
  with v Cons show ?case by simp
qed

text \<open>
  C7, as amended. With \<open>points_per_split \<ge> 3\<close> and \<open>iterations \<ge> 1\<close>, constructing the
  engine fails with the validation error exactly when some declaration is none of the
  recognized shapes, and succeeds exactly when the search space is non-empty and every
  declaration is one. The endpoints of a tuple are checked by type only, so every pair of
  bools is a recognized shape, whatever the two values are.
\<close>

theorem init_validation:
  assumes "3 \<le> pps" and "1 \<le> its" and "distinct (keys vars)"
  shows "((\<exists>k. init f vars pps its g cai = Inl (FailedValidation k))
            \<longleftrightarrow> (\<exists>(k, v)\<in>set vars. \<not> recognized_shape v))
       \<and> ((\<exists>e. init f vars pps its g cai = Inr e)
            \<longleftrightarrow> vars \<noteq> [] \<and> (\<forall>(k, v)\<in>set vars. recognized_shape v))
       \<and> recognized_shape (PyTuple [Bool b1, Bool b2])"
proof -
  let ?all = "\<forall>k\<in>set (keys vars). \<forall>v. getitem vars k = Inr v \<longrightarrow> validate_single v"
  have all_iff: "?all \<longleftrightarrow> (\<forall>(k, v)\<in>set vars. recognized_shape v)"
    using assms(3) getitem_distinct[of vars] by (fastforce simp: validate_single_iff keys_def)
  have vk: "validate_keys vars (keys vars) = Inr () \<longleftrightarrow> ?all"
    by (rule validate_keys_ok) simp
  have res: "validate_keys vars (keys vars) = Inr ()
             \<or> (\<exists>k\<in>set (keys vars). validate_keys vars (keys vars) = Inl (FailedValidation k))"
    by (rule validate_keys_result) simp
  show ?thesis
  proof (cases "vars = []")
    case True
    then show ?thesis using assms by (simp add: init_def validate_variables_def)
  next
    case False
    show ?thesis
    proof (cases "?all")
      case True
      then have ok: "validate_keys vars (keys vars) = Inr ()" using vk by blast
      from True have "\<forall>k\<in>set (keys vars). \<forall>v. getitem vars k = Inr v \<longrightarrow> recognized_shape v"
        by (simp add: validate_single_iff)
      then obtain ts where "sort_keys vars = Inr ts"
        unfolding sort_keys_def using sort_keys_loop_ok[of "keys vars" vars "[]"] by auto
      with ok False True all_iff assms show ?thesis
        by (auto simp: init_def validate_variables_def)
    next
      case F: False
      then have "validate_keys vars (keys vars) \<noteq> Inr ()" using vk by blast
      with res obtain k where "validate_keys vars (keys vars) = Inl (FailedValidation k)" by auto
      with False F all_iff assms show ?thesis
        by (auto simp: init_def validate_variables_def)
    qed
  qed
qed

theorem init_validation_witness:
  "(\<exists>k. init (\<lambda>a. 0) [(''x'', PyTuple [Num (PyFloat 1), Num (PyFloat 2)])] 3 1 GoalMax False
          = Inl (FailedValidation k))
   \<and> (\<exists>e. init (\<lambda>a. 0) [(''d'', PyTuple [Bool True, Bool False])] 3 1 GoalMax False = Inr e)"
  using init_validation[of 3 1 "[(''x'', PyTuple [Num (PyFloat 1), Num (PyFloat 2)])]"
          "\<lambda>a. 0" GoalMax False True True]
        init_validation[of 3 1 "[(''d'', PyTuple [Bool True, Bool False])]"
          "\<lambda>a. 0" GoalMax False True True]
  by (simp add: keys_def)

text \<open>
  C7 as stated fails: a variable declared as \<^verbatim>\<open>(True, True)\<close> passes validation, and the
  engine is constructed with the variable classified as a boolean.
\<close>

theorem init_accepts_equal_bools:
  "init (\<lambda>a. 0) [(''d'', PyTuple [Bool True, Bool True])] 3 1 GoalMax False
     = Inr \<lparr> func = (\<lambda>a. 0), variables = [(''d'', PyTuple [Bool True, Bool True])],
             points_per_split = 3, iterations = 1, goal = GoalMax, check_all_ints = False,
             global_increment_storage = [], types = [(''d'', Some KBool)] \<rparr>"
  by (simp add: init_def validate_variables_def keys_def getitem_def validate_single_def
        validate_tuple_def sort_keys_def determine_variable_type_def)

section \<open>Float ranges\<close>














section \<open>Integer ranges, sampled\<close>











section \<open>The selector\<close>


lemma find_ideal_loop_step:
  "goal e \<noteq> GoalOther None \<Longrightarrow>
   find_ideal_loop e (a # rest) (Some (bv, ba), calls)
     = find_ideal_loop e rest
         (if replaces (goal e) (func e a) bv then Some (func e a, a) else Some (bv, ba), calls @ [a])"
  by (cases "(goal e, func e a, bv)" rule: replaces.cases)
     (auto simp: Let_def closeness_def)





section \<open>Narrowing and the states of a search\<close>







lemma find_ideal_loop_none: "goal e = GoalOther None \<Longrightarrow>
   find_ideal_loop e (a # rest) (Some (bv, ba), calls) = Inl ValueError"
  by simp

lemma find_ideal_loop_member:
  "find_ideal_loop e xs (b, calls) = Inr (Some (ret, vars), calls') \<Longrightarrow>
   (\<forall>bv ba. b = Some (bv, ba) \<longrightarrow> bv = func e ba \<and> ba \<in> S) \<Longrightarrow> set xs \<subseteq> S \<Longrightarrow>
   ret = func e vars \<and> vars \<in> S"
proof (induction xs arbitrary: b calls)
  case Nil
  then show ?case by simp
next
  case (Cons x xs)
  have sub: "set xs \<subseteq> S" and xS: "x \<in> S" using Cons.prems(3) by simp_all
  show ?case
  proof (cases b)
    case None
    have "find_ideal_loop e xs (Some (func e x, x), calls @ [x]) = Inr (Some (ret, vars), calls')"
      using Cons.prems(1) unfolding None find_ideal_loop.simps(2) .
    moreover have "\<forall>bv ba. Some (func e x, x) = Some (bv, ba) \<longrightarrow> bv = func e ba \<and> ba \<in> S"
      using xS by simp
    ultimately show ?thesis using sub by (rule Cons.IH)
  next
    case (Some p)
    obtain bv ba where p: "p = (bv, ba)" by (cases p)
    have inc: "bv = func e ba" "ba \<in> S" using Cons.prems(2) Some p by simp_all
    have g: "goal e \<noteq> GoalOther None"
    proof
      assume "goal e = GoalOther None"
      from find_ideal_loop_none[OF this, of x xs bv ba calls] Cons.prems(1)[unfolded Some p]
      show False by (simp del: find_ideal_loop.simps)
    qed
    let ?b' = "if replaces (goal e) (func e x) bv then Some (func e x, x) else Some (bv, ba)"
    have "find_ideal_loop e xs (?b', calls @ [x]) = Inr (Some (ret, vars), calls')"
      using Cons.prems(1) unfolding Some p find_ideal_loop_step[OF g, of x xs bv ba calls] .
    moreover have "\<forall>bv' ba'. ?b' = Some (bv', ba') \<longrightarrow> bv' = func e ba' \<and> ba' \<in> S"
      using inc xS by simp
    ultimately show ?thesis using sub by (rule Cons.IH)
  qed
qed

lemma find_ideal_choice_member:
  "find_ideal_choice e pts = Inr (Some (ret, vars), calls) \<Longrightarrow> ret = func e vars \<and> vars \<in> set pts"
  unfolding find_ideal_choice_def using find_ideal_loop_member[of e pts None "[]" ret vars calls "set pts"]
  by simp








lemma well_formed_storage [simp]: "well_formed (e\<lparr>global_increment_storage := s\<rparr>) = well_formed e"
  by (simp add: well_formed_def)

lemma to_real_sub: "to_real (num_sub a b) = to_real a - to_real b"
  by (cases a; cases b) simp_all

lemma to_real_add: "to_real (num_add a b) = to_real a + to_real b"
  by (cases a; cases b) simp_all


lemma generate_frame:
  "generate_test_points e space = Inr (pts, e') \<Longrightarrow> e' = e\<lparr>global_increment_storage := global_increment_storage e'\<rparr>"
  by (auto simp: generate_test_points_def split: sum.splits)

lemma crunch_iteration_next:
  assumes "crunch_iteration e pts = Inr (best, Some (vr, pts', e'))"
  shows "\<exists>calls. find_ideal_choice e pts = Inr (Some best, calls)
           \<and> target_reached e (fst best) = Inr False
           \<and> convert_best_val_var_pair_into_ranges e best = Inr vr
           \<and> generate_test_points e vr = Inr (pts', e')"
  using assms unfolding crunch_iteration_def
  by (auto split: sum.splits option.splits bool.splits prod.splits)

lemma crunch_iteration_frame:
  "crunch_iteration e pts = Inr (best, Some (vr, pts', e')) \<Longrightarrow>
   e' = e\<lparr>global_increment_storage := global_increment_storage e'\<rparr>"
  using crunch_iteration_next generate_frame by blast


lemma space_ok_storage [simp]: "space_ok (e\<lparr>global_increment_storage := s\<rparr>) sp = space_ok e sp"
  by (simp add: space_ok_def)

lemma narrowed_ok_storage [simp]: "narrowed_ok (e\<lparr>global_increment_storage := s\<rparr>) sp = narrowed_ok e sp"
  by (simp add: narrowed_ok_def)






section \<open>Narrowed ranges stay within the declared ones\<close>

text \<open>The definitions a concrete run is evaluated with.\<close>

lemmas eval_defs = crunch_start_def crunch_iteration_def generate_test_points_def keys_def
  key_options_def getitem_def split_float_list_and_get_increment_def
  split_int_tuple_and_get_increment_def get_every_int_in_tuple_def num_truediv_def last_num_def
  combo_dict_def find_ideal_choice_def target_reached_def
  convert_best_val_var_pair_into_ranges_def narrow_key_def clamp_to_declared_def num_lt_def
  py_round_real_def Let_def


lemma mixed_start:
  "crunch_start mixed = Some (mixed\<lparr>global_increment_storage := mixed_table\<rparr>, mixed_vars, mixed_batch)"
  by (simp add: eval_defs)






section \<open>The search driver\<close>

lemma split_float_storage [simp]:
  "split_float_list_and_get_increment (e\<lparr>global_increment_storage := s\<rparr>) v
     = split_float_list_and_get_increment e v"
  by (simp add: split_float_list_and_get_increment_def cong: sum.case_cong)

lemma split_int_storage [simp]:
  "split_int_tuple_and_get_increment (e\<lparr>global_increment_storage := s\<rparr>) v
     = split_int_tuple_and_get_increment e v"
  by (simp add: split_int_tuple_and_get_increment_def cong: sum.case_cong)

lemma key_options_storage [simp]:
  "key_options (e\<lparr>global_increment_storage := s\<rparr>) space key = key_options e space key"
  by (simp add: key_options_def cong: sum.case_cong if_cong)



lemma crunch_state_at_frame:
  "crunch_state_at k (e, space, pts) = Some (ek, spk, pk) \<Longrightarrow>
   ek = e\<lparr>global_increment_storage := global_increment_storage ek\<rparr>"
proof (induction k arbitrary: e space pts)
  case 0 then show ?case by simp
next
  case (Suc k)
  from Suc.prems obtain best vr pts' e' where
    it: "crunch_iteration e pts = Inr (best, Some (vr, pts', e'))"
    and rest: "crunch_state_at k (e', vr, pts') = Some (ek, spk, pk)"
    by (auto split: sum.splits option.splits prod.splits)
  from Suc.IH[OF rest] crunch_iteration_frame[OF it] show ?case
    by (metis cruncher.surjective cruncher.update_convs(7))
qed

lemma crunch_loop_frame:
  "crunch_loop n e pts last_pair = Inr (r, e') \<Longrightarrow>
   e' = e\<lparr>global_increment_storage := global_increment_storage e'\<rparr>"
proof (induction n arbitrary: e pts last_pair)
  case 0 then show ?case by (auto split: option.splits)
next
  case (Suc n)
  show ?case
  proof (cases "crunch_iteration e pts")
    case (Inl err) with Suc.prems show ?thesis by simp
  next
    case (Inr res)
    obtain best nxt where res: "res = (best, nxt)" by (cases res)
    show ?thesis
    proof (cases nxt)
      case None
      with Suc.prems Inr res show ?thesis by simp
    next
      case (Some t)
      obtain vr pts' e1 where t: "t = (vr, pts', e1)" by (cases t)
      from Suc.prems Inr res Some t have "crunch_loop n e1 pts' (Some best) = Inr (r, e')" by simp
      from Suc.IH[OF this] crunch_iteration_frame[OF Inr[unfolded res Some t]] show ?thesis
        by (metis cruncher.surjective cruncher.update_convs(7))
    qed
  qed
qed



lemma target_reached_frame [simp]:
  "target_reached (e\<lparr>global_increment_storage := s\<rparr>) r = target_reached e r"
  by (simp add: target_reached_def)


text \<open>
  C10. The generator returns the engine it was given with the increment table replaced and
  nothing else changed (the selector and the narrower return no engine at all). So the
  engine \<^verbatim>\<open>crunch\<close> leaves behind, and the engine at the top of every round, is the
  original one up to the increment table: \<^verbatim>\<open>self.variables\<close> is as it was passed
  in, and the clamping of the narrower computes what it computes on the original engine.
  (The model has no aliasing to break this: the source builds fresh lists, tuples and
  dicts and never writes into a declaration.)
\<close>

theorem crunch_frame:
  "(generate_test_points e sp = Inr (pts1, e1) \<longrightarrow>
      e1 = e\<lparr>global_increment_storage := global_increment_storage e1\<rparr>)
   \<and> (crunch e = Inr (r, e') \<longrightarrow>
      e' = e\<lparr>global_increment_storage := global_increment_storage e'\<rparr> \<and> variables e' = variables e)
   \<and> (crunch_start e = Some st0 \<longrightarrow> crunch_state_at k st0 = Some (ek, space, pts) \<longrightarrow>
      ek = e\<lparr>global_increment_storage := global_increment_storage ek\<rparr>
      \<and> variables ek = variables e
      \<and> (\<forall>key s t. clamp_to_declared ek key s t = clamp_to_declared e key s t))"
proof (intro conjI impI)
  assume "generate_test_points e sp = Inr (pts1, e1)"
  then show "e1 = e\<lparr>global_increment_storage := global_increment_storage e1\<rparr>" by (rule generate_frame)
next
  assume c: "crunch e = Inr (r, e')"
  then obtain p0 e0 where gen: "generate_test_points e (variables e) = Inr (p0, e0)"
    and loop: "crunch_loop (nat (iterations e0)) e0 p0 None = Inr (r, e')"
    by (auto simp: crunch_def split: sum.splits)
  from generate_frame[OF gen] crunch_loop_frame[OF loop]
  show e': "e' = e\<lparr>global_increment_storage := global_increment_storage e'\<rparr>"
    by (metis cruncher.surjective cruncher.update_convs(7))
  show "variables e' = variables e" by (subst e', simp)
next
  assume st: "crunch_start e = Some st0" and at: "crunch_state_at k st0 = Some (ek, space, pts)"
  from st obtain p0 e0 where gen: "generate_test_points e (variables e) = Inr (p0, e0)"
    and st0: "st0 = (e0, variables e, p0)"
    by (auto simp: crunch_start_def split: sum.splits)
  from generate_frame[OF gen] crunch_state_at_frame[OF at[unfolded st0]]
  show ek: "ek = e\<lparr>global_increment_storage := global_increment_storage ek\<rparr>"
    by (metis cruncher.surjective cruncher.update_convs(7))
  show v: "variables ek = variables e" by (subst ek, simp)
  show "\<forall>key s t. clamp_to_declared ek key s t = clamp_to_declared e key s t"
    by (simp add: clamp_to_declared_def v)
qed




lemma mixed_crunch:
  "crunch mixed
     = Inr ((- 4, [(''x'', Num (PyFloat 5)), (''n'', Num (PyInt 0)), (''c'', Num (PyInt 5)), (''d'', Bool True)]),
            mixed\<lparr>global_increment_storage :=
                     [(''x'', PyFloat 5), (''n'', PyFloat 1), (''c'', PyInt 0), (''d'', PyInt 0)]\<rparr>)"
  by (simp add: crunch_def eval_defs numeral_2_eq_2)

theorem crunch_frame_witness:
  "crunch mixed
     = Inr ((- 4, [(''x'', Num (PyFloat 5)), (''n'', Num (PyInt 0)), (''c'', Num (PyInt 5)), (''d'', Bool True)]),
            mixed\<lparr>global_increment_storage :=
                     [(''x'', PyFloat 5), (''n'', PyFloat 1), (''c'', PyInt 0), (''d'', PyInt 0)]\<rparr>)
   \<and> variables (mixed\<lparr>global_increment_storage :=
                     [(''x'', PyFloat 5), (''n'', PyFloat 1), (''c'', PyInt 0), (''d'', PyInt 0)]\<rparr>)
       = mixed_vars
   \<and> crunch_start mixed = Some (mixed\<lparr>global_increment_storage := mixed_table\<rparr>, mixed_vars, mixed_batch)
   \<and> variables (mixed\<lparr>global_increment_storage := mixed_table\<rparr>) = mixed_vars"
  using crunch_frame[of mixed mixed_vars mixed_batch "mixed\<lparr>global_increment_storage := mixed_table\<rparr>"
          "(- 4, [(''x'', Num (PyFloat 5)), (''n'', Num (PyInt 0)), (''c'', Num (PyInt 5)), (''d'', Bool True)])"
          "mixed\<lparr>global_increment_storage :=
                     [(''x'', PyFloat 5), (''n'', PyFloat 1), (''c'', PyInt 0), (''d'', PyInt 0)]\<rparr>"
          "(mixed\<lparr>global_increment_storage := mixed_table\<rparr>, mixed_vars, mixed_batch)" 0
          "mixed\<lparr>global_increment_storage := mixed_table\<rparr>" mixed_vars mixed_batch]
        mixed_crunch mixed_start
  by simp






section \<open>Determinism\<close>

lemma generate_options_engine [simp]:
  "generate_options (e\<lparr>global_increment_storage := s\<rparr>) sp ks acc = generate_options e sp ks acc"
proof (induction ks arbitrary: acc)
  case Nil show ?case by (cases acc) simp
next
  case (Cons k ks)
  show ?case by (cases acc) (simp add: Cons.IH cong: sum.case_cong)
qed

lemma generate_options_table:
  "generate_options e sp ks (od, st1) = Inl err \<Longrightarrow> generate_options e sp ks (od, st2) = Inl err"
  "generate_options e sp ks (od, st1) = Inr (od', st1') \<Longrightarrow>
     \<exists>st2'. generate_options e sp ks (od, st2) = Inr (od', st2')"
proof (induction ks arbitrary: od st1 st2)
  case Nil
  { case 1 then show ?case by simp }
  { case 2 then show ?case by simp }
next
  case (Cons k ks)
  { case 1
    show ?case
    proof (cases "key_options e sp k")
      case (Inl x) with 1 show ?thesis by simp
    next
      case (Inr r)
      obtain p i where r: "r = (p, i)" by (cases r)
      from 1 Inr r have "generate_options e sp ks (AList.update k p od, AList.update k i st1) = Inl err"
        by simp
      from Cons.IH(1)[OF this] Inr r show ?thesis by simp
    qed }
  { case 2
    show ?case
    proof (cases "key_options e sp k")
      case (Inl x) with 2 show ?thesis by simp
    next
      case (Inr r)
      obtain p i where r: "r = (p, i)" by (cases r)
      from 2 Inr r have "generate_options e sp ks (AList.update k p od, AList.update k i st1) = Inr (od', st1')"
        by simp
      from Cons.IH(2)[OF this] Inr r show ?thesis by simp
    qed }
qed

lemma generate_storage:
  "generate_test_points e sp = Inl err \<Longrightarrow>
     generate_test_points (e\<lparr>global_increment_storage := s\<rparr>) sp = Inl err"
  "generate_test_points e sp = Inr (pts, e') \<Longrightarrow>
     \<exists>t. generate_test_points (e\<lparr>global_increment_storage := s\<rparr>) sp
           = Inr (pts, e'\<lparr>global_increment_storage := t\<rparr>)
         \<and> (\<forall>k\<in>set (keys (variables e)). getitem t k = getitem (global_increment_storage e') k)"
proof -
  assume "generate_test_points e sp = Inl err"
  then have "generate_options e sp (keys (variables e)) ([], global_increment_storage e) = Inl err"
    by (auto simp: generate_test_points_def split: sum.splits)
  from generate_options_table(1)[OF this, of s]
  show "generate_test_points (e\<lparr>global_increment_storage := s\<rparr>) sp = Inl err"
    by (simp add: generate_test_points_def)
next
  assume "generate_test_points e sp = Inr (pts, e')"
  then obtain od st where
    go: "generate_options e sp (keys (variables e)) ([], global_increment_storage e) = Inr (od, st)"
    and pts: "pts = map (combo_dict (keys od)) (itertools_product (map snd od))"
    and e': "e' = e\<lparr>global_increment_storage := st\<rparr>"
    by (auto simp: generate_test_points_def split: sum.splits)
  from generate_options_table(2)[OF go, of s] obtain t where
    go2: "generate_options e sp (keys (variables e)) ([], s) = Inr (od, t)" by blast
  have "generate_test_points (e\<lparr>global_increment_storage := s\<rparr>) sp
           = Inr (pts, e'\<lparr>global_increment_storage := t\<rparr>)"
    using go2 pts e' by (simp add: generate_test_points_def)
  moreover have "\<forall>k\<in>set (keys (variables e)). getitem t k = getitem (global_increment_storage e') k"
  proof
    fix k assume k: "k \<in> set (keys (variables e))"
    from generate_options_at[OF go k] generate_options_at[OF go2 k] e'
    show "getitem t k = getitem (global_increment_storage e') k" by auto
  qed
  ultimately show "\<exists>t. generate_test_points (e\<lparr>global_increment_storage := s\<rparr>) sp
           = Inr (pts, e'\<lparr>global_increment_storage := t\<rparr>)
         \<and> (\<forall>k\<in>set (keys (variables e)). getitem t k = getitem (global_increment_storage e') k)"
    by blast
qed

lemma find_ideal_loop_engine:
  "func e2 = func e1 \<Longrightarrow> goal e2 = goal e1 \<Longrightarrow> find_ideal_loop e2 xs st = find_ideal_loop e1 xs st"
proof (induction xs arbitrary: st)
  case Nil
  show ?case by (cases st) simp
next
  case (Cons x xs)
  obtain b calls where st: "st = (b, calls)" by (cases st)
  show ?case
  proof (cases b)
    case None
    then show ?thesis using Cons st by simp
  next
    case (Some p)
    obtain bv ba where p: "p = (bv, ba)" by (cases p)
    show ?thesis
    proof (cases "goal e1 = GoalOther None")
      case True
      then show ?thesis using Cons.prems st Some p
        by (simp add: find_ideal_loop_none del: find_ideal_loop.simps(3))
    next
      case False
      then have "goal e2 \<noteq> GoalOther None" using Cons.prems by simp
      from find_ideal_loop_step[OF this] find_ideal_loop_step[OF False] Cons st Some p
      show ?thesis by (simp del: find_ideal_loop.simps(3))
    qed
  qed
qed

lemma find_ideal_choice_storage [simp]:
  "find_ideal_choice (e\<lparr>global_increment_storage := s\<rparr>) pts = find_ideal_choice e pts"
  unfolding find_ideal_choice_def by (rule find_ideal_loop_engine) simp_all

lemma clamp_storage [simp]:
  "clamp_to_declared (e\<lparr>global_increment_storage := s\<rparr>) key a b = clamp_to_declared e key a b"
  by (simp add: clamp_to_declared_def)

lemma narrow_key_storage:
  "getitem s k = getitem (global_increment_storage e) k \<Longrightarrow>
   narrow_key (e\<lparr>global_increment_storage := s\<rparr>) vars k = narrow_key e vars k"
  by (simp add: narrow_key_def cong: sum.case_cong if_cong)

lemma convert_loop_storage:
  "\<forall>k\<in>set ks. getitem s k = getitem (global_increment_storage e) k \<Longrightarrow>
   convert_loop (e\<lparr>global_increment_storage := s\<rparr>) vars ks acc = convert_loop e vars ks acc"
  by (induction ks arbitrary: acc) (simp_all add: narrow_key_storage cong: sum.case_cong option.case_cong)

lemma convert_storage:
  "\<forall>k\<in>set (keys vars). getitem s k = getitem (global_increment_storage e) k \<Longrightarrow>
   convert_best_val_var_pair_into_ranges (e\<lparr>global_increment_storage := s\<rparr>) (ret, vars)
     = convert_best_val_var_pair_into_ranges e (ret, vars)"
  by (simp add: convert_best_val_var_pair_into_ranges_def convert_loop_storage)

lemma crunch_iteration_storage:
  assumes dist: "distinct (keys (variables e))"
    and agree: "\<forall>k\<in>set (keys (variables e)). getitem s k = getitem (global_increment_storage e) k"
    and pk: "\<forall>a\<in>set pts. keys a = keys (variables e)"
  shows "(\<exists>err. crunch_iteration e pts = Inl err
               \<and> crunch_iteration (e\<lparr>global_increment_storage := s\<rparr>) pts = Inl err)
       \<or> (\<exists>best. crunch_iteration e pts = Inr (best, None)
               \<and> crunch_iteration (e\<lparr>global_increment_storage := s\<rparr>) pts = Inr (best, None))
       \<or> (\<exists>best vr pts' e' t.
               crunch_iteration e pts = Inr (best, Some (vr, pts', e'))
               \<and> crunch_iteration (e\<lparr>global_increment_storage := s\<rparr>) pts
                   = Inr (best, Some (vr, pts', e'\<lparr>global_increment_storage := t\<rparr>))
               \<and> variables e' = variables e
               \<and> (\<forall>k\<in>set (keys (variables e)). getitem t k = getitem (global_increment_storage e') k)
               \<and> (\<forall>a\<in>set pts'. keys a = keys (variables e)))"
proof (cases "find_ideal_choice e pts")
  case (Inl err)
  then show ?thesis by (simp add: crunch_iteration_def)
next
  case (Inr res)
  obtain b calls where res: "res = (b, calls)" by (cases res)
  show ?thesis
  proof (cases b)
    case None
    with Inr res show ?thesis by (simp add: crunch_iteration_def)
  next
    case (Some p)
    obtain ret vars where p: "p = (ret, vars)" by (cases p)
    have fi: "find_ideal_choice e pts = Inr (Some (ret, vars), calls)" using Inr res Some p by simp
    from find_ideal_choice_member[OF fi] pk have kv: "keys vars = keys (variables e)" by simp
    have conv: "convert_best_val_var_pair_into_ranges (e\<lparr>global_increment_storage := s\<rparr>) (ret, vars)
                = convert_best_val_var_pair_into_ranges e (ret, vars)"
      by (rule convert_storage) (simp add: kv agree)
    show ?thesis
    proof (cases "target_reached e ret")
      case (Inl err)
      with fi show ?thesis by (simp add: crunch_iteration_def)
    next
      case tr: (Inr hit)
      show ?thesis
      proof (cases hit)
        case True
        with fi tr show ?thesis by (simp add: crunch_iteration_def)
      next
        case False
        show ?thesis
        proof (cases "convert_best_val_var_pair_into_ranges e (ret, vars)")
          case (Inl err)
          with fi tr False conv show ?thesis by (simp add: crunch_iteration_def)
        next
          case cv: (Inr vr)
          show ?thesis
          proof (cases "generate_test_points e vr")
            case (Inl err)
            from generate_storage(1)[OF this, of s] Inl fi tr False conv cv
            show ?thesis by (simp add: crunch_iteration_def)
          next
            case (Inr g)
            obtain pts' e' where g: "g = (pts', e')" by (cases g)
            from generate_storage(2)[OF Inr[unfolded g], of s] obtain t where
              g2: "generate_test_points (e\<lparr>global_increment_storage := s\<rparr>) vr
                     = Inr (pts', e'\<lparr>global_increment_storage := t\<rparr>)"
              and ag: "\<forall>k\<in>set (keys (variables e)). getitem t k = getitem (global_increment_storage e') k"
              by blast
            have v: "variables e' = variables e"
              using generate_frame[OF Inr[unfolded g]] by (metis cruncher.select_convs(2) cruncher.surjective cruncher.update_convs(7))
            have pk': "\<forall>a\<in>set pts'. keys a = keys (variables e)"
              using batch_member(1)[OF Inr[unfolded g] dist] by blast
            have "crunch_iteration e pts = Inr ((ret, vars), Some (vr, pts', e'))"
              using fi tr False cv Inr g by (simp add: crunch_iteration_def)
            moreover have "crunch_iteration (e\<lparr>global_increment_storage := s\<rparr>) pts
                   = Inr ((ret, vars), Some (vr, pts', e'\<lparr>global_increment_storage := t\<rparr>))"
              using fi tr False conv cv g2 by (simp add: crunch_iteration_def)
            ultimately show ?thesis using v ag pk' by blast
          qed
        qed
      qed
    qed
  qed
qed

lemma crunch_loop_storage:
  assumes "distinct (keys (variables e))"
    and "\<forall>k\<in>set (keys (variables e)). getitem s k = getitem (global_increment_storage e) k"
    and "\<forall>a\<in>set pts. keys a = keys (variables e)"
  shows "result_of (crunch_loop n (e\<lparr>global_increment_storage := s\<rparr>) pts last_pair)
         = result_of (crunch_loop n e pts last_pair)"
  using assms
proof (induction n arbitrary: e s pts last_pair)
  case 0
  show ?case by (cases last_pair) (simp_all add: result_of_def)
next
  case (Suc n)
  from crunch_iteration_storage[OF Suc.prems] consider
    (err) err where "crunch_iteration e pts = Inl err"
       "crunch_iteration (e\<lparr>global_increment_storage := s\<rparr>) pts = Inl err"
    | (stop) best where "crunch_iteration e pts = Inr (best, None)"
       "crunch_iteration (e\<lparr>global_increment_storage := s\<rparr>) pts = Inr (best, None)"
    | (continued) best vr pts' e' t where
        "crunch_iteration e pts = Inr (best, Some (vr, pts', e'))"
        "crunch_iteration (e\<lparr>global_increment_storage := s\<rparr>) pts
                   = Inr (best, Some (vr, pts', e'\<lparr>global_increment_storage := t\<rparr>))"
        "variables e' = variables e"
        "\<forall>k\<in>set (keys (variables e)). getitem t k = getitem (global_increment_storage e') k"
        "\<forall>a\<in>set pts'. keys a = keys (variables e)"
    by blast
  then show ?case
  proof cases
    case err then show ?thesis by (simp add: result_of_def)
  next
    case stop then show ?thesis by (simp add: result_of_def)
  next
    case continued
    have d': "distinct (keys (variables e'))" using continued(3) Suc.prems(1) by simp
    have ag': "\<forall>k\<in>set (keys (variables e')). getitem t k = getitem (global_increment_storage e') k"
      using continued(3,4) by simp
    have pk': "\<forall>a\<in>set pts'. keys a = keys (variables e')" using continued(3,5) by simp
    have "result_of (crunch_loop n (e'\<lparr>global_increment_storage := t\<rparr>) pts' (Some best))
          = result_of (crunch_loop n e' pts' (Some best))"
      by (rule Suc.IH[OF d' ag' pk'])
    with continued(1,2) show ?thesis by simp
  qed
qed

text \<open>
  C9. The evaluation function of the model is a function, so it is deterministic, and the
  configuration is the engine. What \<^verbatim>\<open>crunch\<close> returns (or raises) does not depend on
  the increment table the engine holds when the run starts, the one attribute a run
  changes: the same configuration gives the same score and the same assignment, and a
  second run on the engine a first run left behind returns what the first returned.
\<close>

theorem crunch_deterministic:
  assumes "distinct (keys (variables e))"
  shows "result_of (crunch (e\<lparr>global_increment_storage := s\<rparr>)) = result_of (crunch e)
       \<and> (crunch e = Inr (r, e') \<longrightarrow> result_of (crunch e') = Inr r)"
proof -
  have a: "result_of (crunch (e\<lparr>global_increment_storage := s\<rparr>)) = result_of (crunch e)" for s
  proof (cases "generate_test_points e (variables e)")
    case (Inl err)
    from generate_storage(1)[OF this, of s] Inl show ?thesis by (simp add: crunch_def)
  next
    case (Inr g)
    obtain pts e1 where g: "g = (pts, e1)" by (cases g)
    from generate_storage(2)[OF Inr[unfolded g], of s] obtain t where
      g2: "generate_test_points (e\<lparr>global_increment_storage := s\<rparr>) (variables e)
                     = Inr (pts, e1\<lparr>global_increment_storage := t\<rparr>)"
      and ag: "\<forall>k\<in>set (keys (variables e)). getitem t k = getitem (global_increment_storage e1) k"
      by blast
    have e1: "e1 = e\<lparr>global_increment_storage := global_increment_storage e1\<rparr>"
      by (rule generate_frame[OF Inr[unfolded g]])
    have v: "variables e1 = variables e" and i: "iterations e1 = iterations e"
      by (subst e1, simp)+
    have pk: "\<forall>a\<in>set pts. keys a = keys (variables e)"
      using batch_member(1)[OF Inr[unfolded g] assms] by blast
    have "result_of (crunch_loop (nat (iterations e)) (e1\<lparr>global_increment_storage := t\<rparr>) pts None)
          = result_of (crunch_loop (nat (iterations e)) e1 pts None)"
    proof (rule crunch_loop_storage)
      show "distinct (keys (variables e1))" using v assms by simp
      show "\<forall>k\<in>set (keys (variables e1)). getitem t k = getitem (global_increment_storage e1) k"
        using v ag by simp
      show "\<forall>a\<in>set pts. keys a = keys (variables e1)" using v pk by simp
    qed
    then show ?thesis using Inr g g2 i by (simp add: crunch_def)
  qed
  have b: "result_of (crunch e') = Inr r" if c: "crunch e = Inr (r, e')"
  proof -
    from c obtain p0 e0 where gen: "generate_test_points e (variables e) = Inr (p0, e0)"
      and loop: "crunch_loop (nat (iterations e0)) e0 p0 None = Inr (r, e')"
      by (auto simp: crunch_def split: sum.splits)
    from generate_frame[OF gen] crunch_loop_frame[OF loop]
    have "e' = e\<lparr>global_increment_storage := global_increment_storage e'\<rparr>"
      by (metis cruncher.surjective cruncher.update_convs(7))
    then have "result_of (crunch e') = result_of (crunch e)"
      using a[of "global_increment_storage e'"] by simp
    then show ?thesis using c by (simp add: result_of_def)
  qed
  from a b show ?thesis by blast
qed

theorem crunch_deterministic_witness:
  "distinct (keys (variables mixed))
   \<and> result_of (crunch mixed)
       = Inr (- 4, [(''x'', Num (PyFloat 5)), (''n'', Num (PyInt 0)), (''c'', Num (PyInt 5)), (''d'', Bool True)])
   \<and> result_of (crunch (mixed\<lparr>global_increment_storage :=
                     [(''x'', PyFloat 5), (''n'', PyFloat 1), (''c'', PyInt 0), (''d'', PyInt 0)]\<rparr>))
       = Inr (- 4, [(''x'', Num (PyFloat 5)), (''n'', Num (PyInt 0)), (''c'', Num (PyInt 5)), (''d'', Bool True)])"
  using crunch_deterministic[of mixed
          "[(''x'', PyFloat 5), (''n'', PyFloat 1), (''c'', PyInt 0), (''d'', PyInt 0)]"
          "(- 4, [(''x'', Num (PyFloat 5)), (''n'', Num (PyInt 0)), (''c'', Num (PyInt 5)), (''d'', Bool True)])"
          "mixed\<lparr>global_increment_storage :=
                     [(''x'', PyFloat 5), (''n'', PyFloat 1), (''c'', PyInt 0), (''d'', PyInt 0)]\<rparr>"]
        mixed_crunch
  by (simp add: result_of_def keys_def)

section \<open>The time estimate\<close>

text \<open>
  C6 at three boolean variables, one second per evaluation, three points per split and
  one iteration. The engine is the one the constructor returns. The estimate handed to the
  pretty printer is 6 seconds, the factor for the booleans being \<open>2 * 3\<close>, while the batch
  the generator produces for this engine has \<open>2 ^ 3 = 8\<close> assignments. (The pretty printer
  counts seconds down while more than one is left, so it reports 5.)
\<close>

theorem estimate_three_bools:
  "init (\<lambda>a. 0) three_bools_vars 3 1 GoalMax False = Inr three_bools
   \<and> estimated_seconds three_bools 1 = Some 6
   \<and> estimate_crunch_time three_bools 1 = Estimated (0, 0, 0, 0, 0, 0, 5)
   \<and> (case generate_test_points three_bools three_bools_vars of
         Inl err \<Rightarrow> 0 | Inr (batch, e) \<Rightarrow> length batch) = 8
   \<and> estimated_seconds (three_bools\<lparr>check_all_ints := True\<rparr>) 1 = None"
  by (simp add: init_def validate_variables_def validate_single_def validate_tuple_def
        sort_keys_def determine_variable_type_def estimated_seconds_def estimate_crunch_time_def
        pretty_print_estimated_time_in_seconds_def eval_defs)

end
